theory Spec2Isabelle
  imports Main "HOL-Library.AList" "HOL-Library.Char_ord" "HOL-Library.List_Lexorder"
begin

section \<open>Values, exceptions and the object store\<close>

text \<open>
  The module \<^verbatim>\<open>EventManager.py\<close> defines two classes: \<^verbatim>\<open>Event\<close>, a subclass of
  \<^verbatim>\<open>list\<close> holding handlers, and \<^verbatim>\<open>EventManager\<close>, a subclass of \<^verbatim>\<open>dict\<close>.
  Both are mutable objects that refer to each other, so objects live in a store and
  values refer to them by address.

  A Python value is \<^verbatim>\<open>None\<close>, an integer, a string, a callable that is not an Event
  (a function, a bound method: identified by a number, equal exactly when the numbers are
  equal) or a reference to an Event object.
\<close>

type_synonym addr = nat

datatype pyval = PNone | PInt int | PStr string | PFunc nat | PEvent addr

datatype exn =
    TypeError | ValueError | KeyError | AttributeError | StopIteration | RuntimeError
  | OtherError nat

text \<open>
  An Event object: the list contents (the handlers) and the two instance attributes
  \<^verbatim>\<open>eventmanager\<close> and \<^verbatim>\<open>name\<close> set by \<^verbatim>\<open>Event.__init__\<close>. The attribute
  \<^verbatim>\<open>eventmanager\<close> is only ever written by this module with \<^verbatim>\<open>None\<close> or with an
  EventManager (\<^verbatim>\<open>self\<close> in \<^verbatim>\<open>__setitem__\<close>), hence an optional address.
\<close>

record event =
  handlers :: "pyval list"
  eventmanager :: "addr option"
  name :: pyval

text \<open>
  The store: the Event objects, the EventManager objects (each the contents of a
  \<^verbatim>\<open>dict\<close>, as an association list in insertion order), the next unused address, and
  whatever else the handlers of the application act on (\<open>user\<close>).
\<close>

record 'u heap =
  evs :: "addr \<Rightarrow> event"
  mgrs :: "addr \<Rightarrow> (pyval \<times> pyval) list"
  fresh :: addr
  user :: 'u

type_synonym args = "pyval list"
type_synonym kwargs = "(string \<times> pyval) list"

text \<open>
  What calling a function does is given from outside: \<open>env f args kwargs\<close> takes the store
  to the exception raised (if any) and the new store. A function may change anything in
  the store, also the Event it is a handler of.
\<close>

type_synonym 'u env = "nat \<Rightarrow> args \<Rightarrow> kwargs \<Rightarrow> 'u heap \<Rightarrow> exn option \<times> 'u heap"

text \<open>
  The dispatch code is instrumented with a log of the handler invocations it performs:
  the handler, the positional and the keyword arguments.
\<close>

type_synonym invocation = "pyval \<times> args \<times> kwargs"
type_synonym 'u state = "'u heap \<times> invocation list"

subsection \<open>Built-ins used by the module\<close>

text \<open>\<^verbatim>\<open>callable(v)\<close>: functions are, and so is an Event, whose class defines \<^verbatim>\<open>__call__\<close>.\<close>

fun callable :: "pyval \<Rightarrow> bool" where
  "callable (PFunc f) = True"
| "callable (PEvent a) = True"
| "callable v = False"

text \<open>A list (hence an Event) is unhashable and cannot be a \<^verbatim>\<open>dict\<close> key.\<close>

fun hashable :: "pyval \<Rightarrow> bool" where
  "hashable (PEvent a) = False"
| "hashable v = True"

text \<open>
  \<^verbatim>\<open>x == y\<close> as \<^verbatim>\<open>list.remove\<close> uses it: identical objects are equal; two Events are
  compared as lists (same length, elements pairwise equal), which recurses into Events
  that are handlers of Events. \<open>d\<close> is the interpreter's remaining recursion depth:
  \<open>None\<close> is the \<^verbatim>\<open>RuntimeError\<close> of exceeding it.
\<close>

fun py_eq :: "nat \<Rightarrow> (addr \<Rightarrow> event) \<Rightarrow> pyval \<Rightarrow> pyval \<Rightarrow> bool option"
  and all_eq :: "nat \<Rightarrow> (addr \<Rightarrow> event) \<Rightarrow> pyval list \<Rightarrow> pyval list \<Rightarrow> bool option" where
  "py_eq d E (PEvent a) (PEvent b) =
     (if a = b then Some True
      else case d of
        0 \<Rightarrow> None
      | Suc d' \<Rightarrow>
          if length (handlers (E a)) \<noteq> length (handlers (E b)) then Some False
          else all_eq d' E (handlers (E a)) (handlers (E b)))"
| "py_eq d E v w = Some (v = w)"
| "all_eq d E (x # xs) (y # ys) =
     (case py_eq d E x y of
        None \<Rightarrow> None
      | Some False \<Rightarrow> Some False
      | Some True \<Rightarrow> all_eq d E xs ys)"
| "all_eq d E xs ys = Some True"

text \<open>\<^verbatim>\<open>list.remove(x)\<close>: delete the first element equal to \<open>x\<close>, \<^verbatim>\<open>ValueError\<close> if none.\<close>

fun list_remove :: "nat \<Rightarrow> (addr \<Rightarrow> event) \<Rightarrow> pyval list \<Rightarrow> pyval \<Rightarrow> exn + pyval list" where
  "list_remove d E [] x = Inl ValueError"
| "list_remove d E (y # ys) x =
     (case py_eq d E y x of
        None \<Rightarrow> Inl RuntimeError
      | Some True \<Rightarrow> Inr ys
      | Some False \<Rightarrow>
          (case list_remove d E ys x of Inl e \<Rightarrow> Inl e | Inr zs \<Rightarrow> Inr (y # zs)))"

text \<open>\<^verbatim>\<open>s.startswith("_")\<close>.\<close>

fun startswith_underscore :: "string \<Rightarrow> bool" where
  "startswith_underscore [] = False"
| "startswith_underscore (c # cs) = (c = CHR ''_'')"

section \<open>Event\<close>

text \<open>
  \<^verbatim>\<open>Event.__init__(self, *args)\<close>: the list is initialised with \<open>args\<close> as they are, and
  both attributes with \<^verbatim>\<open>None\<close>. The new object gets the next unused address.
\<close>

definition Event_init :: "pyval list \<Rightarrow> 'u heap \<Rightarrow> addr \<times> 'u heap" where
  "Event_init args h =
     (fresh h,
      h\<lparr>evs := (evs h)(fresh h := \<lparr>handlers = args, eventmanager = None, name = PNone\<rparr>),
        fresh := Suc (fresh h)\<rparr>)"

text \<open>\<^verbatim>\<open>Event.clear\<close>: \<^verbatim>\<open>del self[:]\<close>.\<close>

definition clear :: "addr \<Rightarrow> 'u heap \<Rightarrow> exn option \<times> 'u heap" where
  "clear self h = (None, h\<lparr>evs := (evs h)(self := (evs h self)\<lparr>handlers := []\<rparr>)\<rparr>)"

text \<open>\<^verbatim>\<open>Event.add_handler\<close>: \<^verbatim>\<open>TypeError\<close> unless callable, else \<^verbatim>\<open>self.append(handler)\<close>.\<close>

definition add_handler :: "addr \<Rightarrow> pyval \<Rightarrow> 'u heap \<Rightarrow> exn option \<times> 'u heap" where
  "add_handler self handler h =
     (if \<not> callable handler then (Some TypeError, h)
      else (None, h\<lparr>evs := (evs h)(self := (evs h self)\<lparr>handlers := handlers (evs h self) @ [handler]\<rparr>)\<rparr>))"

text \<open>\<^verbatim>\<open>Event.remove_handler\<close>: \<^verbatim>\<open>self.remove(handler)\<close>.\<close>

definition remove_handler :: "nat \<Rightarrow> addr \<Rightarrow> pyval \<Rightarrow> 'u heap \<Rightarrow> exn option \<times> 'u heap" where
  "remove_handler d self handler h =
     (case list_remove d (evs h) (handlers (evs h self)) handler of
        Inl e \<Rightarrow> (Some e, h)
      | Inr hs \<Rightarrow> (None, h\<lparr>evs := (evs h)(self := (evs h self)\<lparr>handlers := hs\<rparr>)\<rparr>))"

section \<open>EventManager: item and attribute access\<close>

text \<open>
  \<^verbatim>\<open>EventManager.__setitem__\<close>: a value that is an Event (\<^verbatim>\<open>isinstance(value, Event)\<close>,
  here the constructor \<open>PEvent\<close>) is stamped with the key and the manager,
  then \<^verbatim>\<open>dict.__setitem__\<close> stores the entry (\<^verbatim>\<open>TypeError\<close> for an unhashable key, raised
  after the stamping).
\<close>

definition setitem :: "addr \<Rightarrow> pyval \<Rightarrow> pyval \<Rightarrow> 'u heap \<Rightarrow> exn option \<times> 'u heap" where
  "setitem self key val h =
     (let h1 = (case val of
                  PEvent a \<Rightarrow> h\<lparr>evs := (evs h)(a := (evs h a)\<lparr>eventmanager := Some self, name := key\<rparr>)\<rparr>
                | _ \<Rightarrow> h)
      in if \<not> hashable key then (Some TypeError, h1)
         else (None, h1\<lparr>mgrs := (mgrs h1)(self := AList.update key val (mgrs h1 self))\<rparr>))"

text \<open>
  \<^verbatim>\<open>dict.__getitem__\<close>, inherited: the class defines no \<^verbatim>\<open>__missing__\<close>, so a missing
  key is a \<^verbatim>\<open>KeyError\<close>. Reading changes nothing; the store is returned as it was.
\<close>

definition getitem :: "addr \<Rightarrow> pyval \<Rightarrow> 'u heap \<Rightarrow> (exn + pyval) \<times> 'u heap" where
  "getitem self key h =
     (if \<not> hashable key then (Inl TypeError, h)
      else case map_of (mgrs h self) key of
             None \<Rightarrow> (Inl KeyError, h)
           | Some v \<Rightarrow> (Inr v, h))"

text \<open>\<^verbatim>\<open>EventManager.__getattr__\<close>: \<^verbatim>\<open>return self[name]\<close>.\<close>

definition getattr :: "addr \<Rightarrow> string \<Rightarrow> 'u heap \<Rightarrow> (exn + pyval) \<times> 'u heap" where
  "getattr self nm h = getitem self (PStr nm) h"

text \<open>\<^verbatim>\<open>EventManager.__setattr__\<close>: \<^verbatim>\<open>self[name] = value\<close>.\<close>

definition setattr :: "addr \<Rightarrow> string \<Rightarrow> pyval \<Rightarrow> 'u heap \<Rightarrow> exn option \<times> 'u heap" where
  "setattr self nm val h = setitem self (PStr nm) val h"

text \<open>
  Assigning to the attribute \<^verbatim>\<open>name\<close> or \<^verbatim>\<open>eventmanager\<close> of a value, as the constructor
  of the manager does on \<^verbatim>\<open>self.got_event\<close>: possible on an Event; the other values
  here have no such attribute to assign.
\<close>

definition set_name :: "pyval \<Rightarrow> pyval \<Rightarrow> 'u heap \<Rightarrow> exn option \<times> 'u heap" where
  "set_name v nm h =
     (case v of
        PEvent a \<Rightarrow> (None, h\<lparr>evs := (evs h)(a := (evs h a)\<lparr>name := nm\<rparr>)\<rparr>)
      | _ \<Rightarrow> (Some AttributeError, h))"

definition set_eventmanager :: "pyval \<Rightarrow> addr option \<Rightarrow> 'u heap \<Rightarrow> exn option \<times> 'u heap" where
  "set_eventmanager v m h =
     (case v of
        PEvent a \<Rightarrow> (None, h\<lparr>evs := (evs h)(a := (evs h a)\<lparr>eventmanager := m\<rparr>)\<rparr>)
      | _ \<Rightarrow> (Some AttributeError, h))"

text \<open>
  \<^verbatim>\<open>EventManager.__init__(self, *args, **kwargs)\<close>. \<open>init\<close> is the dictionary that
  \<^verbatim>\<open>dict.__init__\<close> builds from the arguments (it does not go through
  \<^verbatim>\<open>__setitem__\<close>). The three statements on \<^verbatim>\<open>self.got_event\<close> follow: the assignment
  goes through \<^verbatim>\<open>__setattr__\<close>, the two reads through \<^verbatim>\<open>__getattr__\<close>, since
  \<^verbatim>\<open>got_event\<close> is no attribute of the class and nothing is ever put in the instance's
  \<^verbatim>\<open>__dict__\<close>.
\<close>

definition EventManager_init :: "(pyval \<times> pyval) list \<Rightarrow> 'u heap \<Rightarrow> exn + (addr \<times> 'u heap)" where
  "EventManager_init init h =
     (let self = fresh h;
          h0 = h\<lparr>mgrs := (mgrs h)(self := init), fresh := Suc (fresh h)\<rparr>;
          (g, h1) = Event_init [] h0
      in case setattr self ''got_event'' (PEvent g) h1 of
           (Some e, h2) \<Rightarrow> Inl e
         | (None, h2) \<Rightarrow>
             (case getattr self ''got_event'' h2 of
                (Inl e, h3) \<Rightarrow> Inl e
              | (Inr v, h3) \<Rightarrow>
                  (case set_name v (PStr ''GLOBAL'') h3 of
                     (Some e, h4) \<Rightarrow> Inl e
                   | (None, h4) \<Rightarrow>
                       (case getattr self ''got_event'' h4 of
                          (Inl e, h5) \<Rightarrow> Inl e
                        | (Inr w, h5) \<Rightarrow>
                            (case set_eventmanager w None h5 of
                               (Some e, h6) \<Rightarrow> Inl e
                             | (None, h6) \<Rightarrow> Inr (self, h6))))))"

section \<open>Firing an Event\<close>

text \<open>
  \<^verbatim>\<open>if self.eventmanager:\<close> is the truth value of an attribute that is \<^verbatim>\<open>None\<close> or an
  EventManager, and an EventManager is a \<^verbatim>\<open>dict\<close>: true when it has at least one entry.
\<close>

definition truthy_eventmanager :: "'u heap \<Rightarrow> addr option \<Rightarrow> bool" where
  "truthy_eventmanager h m = (case m of None \<Rightarrow> False | Some a \<Rightarrow> mgrs h a \<noteq> [])"

text \<open>
  \<^verbatim>\<open>Event.fire\<close>, \<^verbatim>\<open>Event.__call__\<close> and calling a value, by mutual recursion. A handler
  can be an Event (an Event is callable) and a function can change the list that is being
  iterated, so firing need not return: the first argument is fuel, and \<open>None\<close> means that
  the fuel did not suffice.

  \<^item> \<open>fire\<close> is the body of \<^verbatim>\<open>Event.fire\<close>: the global notification, then the loop;
  \<^item> \<open>notify_global\<close> is its first statement (lines 55 to 57): when the event has a true
    \<^verbatim>\<open>eventmanager\<close>, \<^verbatim>\<open>self.eventmanager.got_event\<close> is read (through
    \<^verbatim>\<open>__getattr__\<close>) and called with \<^verbatim>\<open>(self.name, *args, **kwargs)\<close>;
  \<^item> \<open>dispatch\<close> is the \<^verbatim>\<open>for\<close> loop (lines 59 to 63) with the list iterator's index
    \<open>i\<close>: the iterator reads the list as it is at each step; \<^verbatim>\<open>StopIteration\<close> from a
    handler ends the loop normally, any other exception leaves \<open>fire\<close>;
  \<^item> \<open>call_value\<close> is \<^verbatim>\<open>v(*args, **kwargs)\<close>: a function acts as the environment says, an
    Event fires (\<^verbatim>\<open>__call__\<close>), anything else is not callable.
\<close>

function (sequential) fire :: "'u env \<Rightarrow> nat \<Rightarrow> addr \<Rightarrow> args \<Rightarrow> kwargs \<Rightarrow> 'u state \<Rightarrow> (exn option \<times> 'u state) option"
  and notify_global :: "'u env \<Rightarrow> nat \<Rightarrow> addr \<Rightarrow> args \<Rightarrow> kwargs \<Rightarrow> 'u state \<Rightarrow> (exn option \<times> 'u state) option"
  and dispatch :: "'u env \<Rightarrow> nat \<Rightarrow> addr \<Rightarrow> nat \<Rightarrow> args \<Rightarrow> kwargs \<Rightarrow> 'u state \<Rightarrow> (exn option \<times> 'u state) option"
  and call_value :: "'u env \<Rightarrow> nat \<Rightarrow> pyval \<Rightarrow> args \<Rightarrow> kwargs \<Rightarrow> 'u state \<Rightarrow> (exn option \<times> 'u state) option"
  where
  "fire env 0 self args kw s = None"
| "fire env (Suc n) self args kw s =
     (case notify_global env n self args kw s of
        None \<Rightarrow> None
      | Some (Some e, s') \<Rightarrow> Some (Some e, s')
      | Some (None, s') \<Rightarrow> dispatch env n self 0 args kw s')"
| "notify_global env n self args kw (h, tr) =
     (if truthy_eventmanager h (eventmanager (evs h self)) then
        (case getattr (the (eventmanager (evs h self))) ''got_event'' h of
           (Inl e, h') \<Rightarrow> Some (Some e, (h', tr))
         | (Inr g, h') \<Rightarrow>
             (case n of
                0 \<Rightarrow> None
              | Suc n' \<Rightarrow> call_value env n' g (name (evs h self) # args) kw (h', tr)))
      else Some (None, (h, tr)))"
| "dispatch env n self i args kw (h, tr) =
     (if i < length (handlers (evs h self)) then
        (case n of
           0 \<Rightarrow> None
         | Suc n' \<Rightarrow>
             (case call_value env n' (handlers (evs h self) ! i) args kw
                     (h, tr @ [(handlers (evs h self) ! i, args, kw)]) of
                None \<Rightarrow> None
              | Some (Some e, s') \<Rightarrow>
                  if e = StopIteration then Some (None, s') else Some (Some e, s')
              | Some (None, s') \<Rightarrow> dispatch env n' self (Suc i) args kw s'))
      else Some (None, (h, tr)))"
| "call_value env n (PFunc f) args kw (h, tr) =
     (case env f args kw h of (r, h') \<Rightarrow> Some (r, (h', tr)))"
| "call_value env n (PEvent a) args kw s = fire env n a args kw s"
| "call_value env n v args kw s = Some (Some TypeError, s)"
  by pat_completeness auto

text \<open>
  Every call passes less fuel on, except that calling an Event fires it with the same
  fuel, and firing then uses it up.
\<close>

termination
  by (relation "measure (\<lambda>x. case x of
      Inl (Inl (env, n, r)) \<Rightarrow> 2 * n
    | Inl (Inr (env, n, r)) \<Rightarrow> 2 * n + 1
    | Inr (Inl (env, n, r)) \<Rightarrow> 2 * n + 1
    | Inr (Inr (env, n, r)) \<Rightarrow> 2 * n + 1)") auto

section \<open>EventManager.apply\<close>

text \<open>
  The argument of \<^verbatim>\<open>apply\<close> is only read, through \<^verbatim>\<open>dir\<close> and \<^verbatim>\<open>getattr\<close>: it is
  modelled by its attribute table. \<^verbatim>\<open>dir\<close> lists the attribute names sorted and
  without repetition.
\<close>

type_synonym pyobject = "(string \<times> pyval) list"

definition dir_py :: "pyobject \<Rightarrow> string list" where
  "dir_py obj = sort (remdups (map fst obj))"

definition getattr_obj :: "pyobject \<Rightarrow> string \<Rightarrow> exn + pyval" where
  "getattr_obj obj nm = (case map_of obj nm of None \<Rightarrow> Inl AttributeError | Some v \<Rightarrow> Inr v)"

text \<open>
  \<^verbatim>\<open>hasattr(self, method)\<close> on an EventManager. The ordinary lookup comes first and
  finds the attributes of the classes \<^verbatim>\<open>EventManager\<close>, \<^verbatim>\<open>dict\<close> and \<^verbatim>\<open>object\<close>
  (the instance's own \<^verbatim>\<open>__dict__\<close> stays empty, every assignment being routed to the
  dictionary); \<open>class_attrs\<close> lists those without a leading underscore, the only ones
  \<^verbatim>\<open>apply\<close> asks about. Otherwise \<^verbatim>\<open>__getattr__\<close> runs and raises \<^verbatim>\<open>KeyError\<close> for a
  missing name. The module is written for Python 2 (its \<^verbatim>\<open>Event.clear\<close> supplies what
  \<^verbatim>\<open>list\<close> lacks there), where \<^verbatim>\<open>hasattr\<close> answers \<^verbatim>\<open>False\<close> on any exception; from
  Python 3.2 on only \<^verbatim>\<open>AttributeError\<close> is taken for absence and the \<^verbatim>\<open>KeyError\<close>
  leaves \<^verbatim>\<open>hasattr\<close>. Both are modelled.
\<close>

datatype pyver = Py2 | Py3

definition class_attrs :: "pyver \<Rightarrow> string list" where
  "class_attrs ver =
     [''apply'', ''clear'', ''copy'', ''fromkeys'', ''get'', ''items'', ''keys'', ''pop'',
      ''popitem'', ''setdefault'', ''update'', ''values''] @
     (case ver of
        Py2 \<Rightarrow> [''has_key'', ''iteritems'', ''iterkeys'', ''itervalues'', ''viewitems'',
                ''viewkeys'', ''viewvalues'']
      | Py3 \<Rightarrow> [])"

definition hasattr :: "pyver \<Rightarrow> addr \<Rightarrow> string \<Rightarrow> 'u heap \<Rightarrow> (exn + bool) \<times> 'u heap" where
  "hasattr ver self nm h =
     (if nm \<in> set (class_attrs ver) then (Inr True, h)
      else case getattr self nm h of
             (Inr v, h') \<Rightarrow> (Inr True, h')
           | (Inl e, h') \<Rightarrow>
               (case ver of
                  Py2 \<Rightarrow> (Inr False, h')
                | Py3 \<Rightarrow> if e = AttributeError then (Inr False, h') else (Inl e, h')))"

text \<open>
  \<^verbatim>\<open>v.add_handler(handler)\<close> on a stored value: the method of an Event; the other values
  have no such attribute.
\<close>

definition call_add_handler :: "pyval \<Rightarrow> pyval \<Rightarrow> 'u heap \<Rightarrow> exn option \<times> 'u heap" where
  "call_add_handler v handler h =
     (case v of PEvent a \<Rightarrow> add_handler a handler h | _ \<Rightarrow> (Some AttributeError, h))"

text \<open>
  The body of the loop of \<^verbatim>\<open>apply\<close> for one name, and the loop. An exception ends
  \<^verbatim>\<open>apply\<close> with what was done so far.
\<close>

definition apply_step :: "pyver \<Rightarrow> addr \<Rightarrow> pyobject \<Rightarrow> string \<Rightarrow> 'u heap \<Rightarrow> exn option \<times> 'u heap" where
  "apply_step ver self events method h =
     (case getattr_obj events method of
        Inl e \<Rightarrow> (Some e, h)
      | Inr v \<Rightarrow>
          if \<not> callable v then (None, h)
          else if startswith_underscore method then (None, h)
          else
            (case hasattr ver self method h of
               (Inl e, h1) \<Rightarrow> (Some e, h1)
             | (Inr b, h1) \<Rightarrow>
                 (case (if \<not> b
                        then (case Event_init [] h1 of
                                (a, h2) \<Rightarrow> setitem self (PStr method) (PEvent a) h2)
                        else (None, h1)) of
                    (Some e, h3) \<Rightarrow> (Some e, h3)
                  | (None, h3) \<Rightarrow>
                      (case getitem self (PStr method) h3 of
                         (Inl e, h4) \<Rightarrow> (Some e, h4)
                       | (Inr target, h4) \<Rightarrow> call_add_handler target v h4))))"

fun apply_loop :: "pyver \<Rightarrow> addr \<Rightarrow> pyobject \<Rightarrow> string list \<Rightarrow> 'u heap \<Rightarrow> exn option \<times> 'u heap" where
  "apply_loop ver self events [] h = (None, h)"
| "apply_loop ver self events (method # rest) h =
     (case apply_step ver self events method h of
        (Some e, h') \<Rightarrow> (Some e, h')
      | (None, h') \<Rightarrow> apply_loop ver self events rest h')"

text \<open>\<^verbatim>\<open>EventManager.apply\<close> (\<open>apply\<close> is a reserved word here).\<close>

definition EventManager_apply :: "pyver \<Rightarrow> addr \<Rightarrow> pyobject \<Rightarrow> 'u heap \<Rightarrow> exn option \<times> 'u heap" where
  "EventManager_apply ver self events h = apply_loop ver self events (dir_py events) h"

section \<open>Notions used to state the properties\<close>

text \<open>A store with no objects.\<close>

definition empty_heap :: "'u \<Rightarrow> 'u heap" where
  "empty_heap u =
     \<lparr>evs = (\<lambda>a. \<lparr>handlers = [], eventmanager = None, name = PNone\<rparr>),
      mgrs = (\<lambda>a. []), fresh = 0, user = u\<rparr>"

text \<open>
  A function returns normally, raises \<^verbatim>\<open>StopIteration\<close>, or leaves the handler list of
  an Event as it is, whatever the store it is called in.
\<close>

definition returns_normally :: "'u env \<Rightarrow> nat \<Rightarrow> args \<Rightarrow> kwargs \<Rightarrow> bool" where
  "returns_normally env f args kw = (\<forall>h. fst (env f args kw h) = None)"


definition keeps_handlers :: "'u env \<Rightarrow> nat \<Rightarrow> args \<Rightarrow> kwargs \<Rightarrow> addr \<Rightarrow> bool" where
  "keeps_handlers env f args kw a =
     (\<forall>h. handlers (evs (snd (env f args kw h)) a) = handlers (evs h a))"

text \<open>The store after calling the functions \<open>fs\<close> one after the other.\<close>

definition run_all :: "'u env \<Rightarrow> nat list \<Rightarrow> args \<Rightarrow> kwargs \<Rightarrow> 'u heap \<Rightarrow> 'u heap" where
  "run_all env fs args kw h = fold (\<lambda>f h'. snd (env f args kw h')) fs h"

text \<open>The log entries of calling each of \<open>fs\<close> once, in order, with the same arguments.\<close>

definition invocations :: "nat list \<Rightarrow> args \<Rightarrow> kwargs \<Rightarrow> invocation list" where
  "invocations fs args kw = map (\<lambda>f. (PFunc f, args, kw)) fs"


text \<open>
  Two environments to run examples in: every function appends its number and arguments to
  a list in the user's part of the store; in the second, function \<open>k\<close> then raises
  \<^verbatim>\<open>StopIteration\<close>.
\<close>

definition log_env :: "(nat \<times> args) list env" where
  "log_env f args kw h = (None, h\<lparr>user := user h @ [(f, args)]\<rparr>)"


text \<open>
  For \<^verbatim>\<open>apply\<close>: the members of an object that are callable and whose name has no
  leading underscore; the entry of a manager under a name; the handlers of the Event
  stored under a name (none when there is no such Event).
\<close>

definition public_callable :: "pyobject \<Rightarrow> string \<Rightarrow> bool" where
  "public_callable obj nm =
     (case map_of obj nm of
        None \<Rightarrow> False
      | Some v \<Rightarrow> callable v \<and> \<not> startswith_underscore nm)"

definition entry :: "'u heap \<Rightarrow> addr \<Rightarrow> string \<Rightarrow> pyval option" where
  "entry h m nm = map_of (mgrs h m) (PStr nm)"

definition handlers_under :: "'u heap \<Rightarrow> addr \<Rightarrow> string \<Rightarrow> pyval list" where
  "handlers_under h m nm =
     (case entry h m nm of Some (PEvent a) \<Rightarrow> handlers (evs h a) | _ \<Rightarrow> [])"

text \<open>
  The situation \<^verbatim>\<open>apply\<close> is written for: no public callable member is named like a
  method of the manager's classes; what the manager already stores under such a name is an
  Event, allocated earlier, and not the same Event under two of these names.
\<close>

definition apply_ready :: "pyver \<Rightarrow> addr \<Rightarrow> pyobject \<Rightarrow> 'u heap \<Rightarrow> bool" where
  "apply_ready ver m obj h =
     (\<forall>nm. public_callable obj nm \<longrightarrow>
        nm \<notin> set (class_attrs ver) \<and>
        (entry h m nm = None \<or>
         (\<exists>a. entry h m nm = Some (PEvent a) \<and> a < fresh h \<and>
              (\<forall>nm'. public_callable obj nm' \<and> entry h m nm' = Some (PEvent a) \<longrightarrow> nm' = nm))))"


definition new_manager :: "(nat \<times> args) list heap" where
  "new_manager = snd (projr (EventManager_init [] (empty_heap [])))"

definition foo_unbound :: "(nat \<times> args) list heap" where
  "foo_unbound = snd (Event_init [PFunc 1, PFunc 2] (snd (add_handler 1 (PFunc 10) new_manager)))"

definition foo_bound :: "(nat \<times> args) list heap" where
  "foo_bound = snd (setattr 0 ''foo'' (PEvent 2) foo_unbound)"

text \<open>
  What \<^verbatim>\<open>apply\<close> has done for the names in \<open>S\<close> between two stores: under each public
  callable name in \<open>S\<close> the manager holds an Event (the one it held before, if any) whose
  handlers are the former ones followed by the member; every other entry is the same, and
  so are the handlers under the other public callable names.
\<close>

definition applied :: "addr \<Rightarrow> pyobject \<Rightarrow> string set \<Rightarrow> 'u heap \<Rightarrow> 'u heap \<Rightarrow> bool" where
  "applied m obj S h h' =
     (\<forall>nm. if public_callable obj nm \<and> nm \<in> S
           then (\<exists>a. entry h' m nm = Some (PEvent a)) \<and>
                (entry h m nm = None \<or> entry h m nm = entry h' m nm) \<and>
                handlers_under h' m nm = handlers_under h m nm @ [the (map_of obj nm)]
           else entry h' m nm = entry h m nm \<and>
                (public_callable obj nm \<longrightarrow> handlers_under h' m nm = handlers_under h m nm))"

text \<open>
  An object with two public methods, a public attribute that is not callable and a
  private method; and an environment in which function 1 removes the first handler of
  the Event at address 0 while it runs.
\<close>

definition example_object :: pyobject where
  "example_object = [(''b'', PFunc 2), (''a'', PFunc 1), (''n'', PInt 3), (''_p'', PFunc 4)]"

definition remover_env :: "unit env" where
  "remover_env f args kw h =
     (None, if f = 1 then h\<lparr>evs := (evs h)(0 := (evs h 0)\<lparr>handlers := tl (handlers (evs h 0))\<rparr>)\<rparr> else h)"

section \<open>Properties of Event\<close>

lemma list_remove_absent:
  "\<forall>y\<in>set ys. py_eq d E y x = Some False \<Longrightarrow> list_remove d E ys x = Inl ValueError"
  by (induction ys) auto

lemma list_remove_first:
  "\<forall>z\<in>set pre. py_eq d E z x = Some False \<Longrightarrow> py_eq d E y x = Some True \<Longrightarrow>
   list_remove d E (pre @ y # post) x = Inr (pre @ post)"
  by (induction pre) auto

text \<open>
  C6. \<^verbatim>\<open>add_handler\<close> with a value that is not callable raises \<^verbatim>\<open>TypeError\<close> and leaves
  the store, hence the handler list, as it was.
\<close>

theorem add_handler_rejects_non_callable:
  "\<not> callable v \<Longrightarrow> add_handler self v h = (Some TypeError, h)"
  by (simp add: add_handler_def)

theorem add_handler_rejects_non_callable_witness:
  "\<not> callable (PInt 5) \<and>
   add_handler 0 (PInt 5) (empty_heap ()) = (Some TypeError, empty_heap ())"
  using add_handler_rejects_non_callable [of "PInt 5" 0 "empty_heap ()"] by simp

text \<open>
  C7. \<^verbatim>\<open>remove_handler(x)\<close>: when no handler in the list is equal to \<open>x\<close>, it raises the
  "not found" error of \<^verbatim>\<open>list.remove\<close> (\<^verbatim>\<open>ValueError\<close>) and the store is unchanged;
  when \<open>y\<close> is the first handler equal to \<open>x\<close>, exactly that occurrence is removed and the
  rest of the list keeps its order. Equality is Python's \<^verbatim>\<open>==\<close> on the values.
\<close>

theorem remove_handler_first_occurrence:
  "((\<forall>y\<in>set (handlers (evs h self)). py_eq d (evs h) y x = Some False) \<longrightarrow>
      remove_handler d self x h = (Some ValueError, h)) \<and>
   (handlers (evs h self) = pre @ y # post \<and>
    (\<forall>z\<in>set pre. py_eq d (evs h) z x = Some False) \<and> py_eq d (evs h) y x = Some True \<longrightarrow>
      remove_handler d self x h =
        (None, h\<lparr>evs := (evs h)(self := (evs h self)\<lparr>handlers := pre @ post\<rparr>)\<rparr>))"
  by (auto simp: remove_handler_def list_remove_absent list_remove_first)

theorem remove_handler_first_occurrence_witness:
  "remove_handler 0 0 (PFunc 3) (snd (Event_init [PFunc 1, PFunc 2, PFunc 1] (empty_heap ()))) =
     (Some ValueError, snd (Event_init [PFunc 1, PFunc 2, PFunc 1] (empty_heap ()))) \<and>
   handlers (evs (snd (remove_handler 0 0 (PFunc 1)
      (snd (Event_init [PFunc 2, PFunc 1, PFunc 3, PFunc 1] (empty_heap ()))))) 0) =
     [PFunc 2, PFunc 3, PFunc 1]"
  using remove_handler_first_occurrence
    [of "snd (Event_init [PFunc 1, PFunc 2, PFunc 1] (empty_heap ()))" 0 0 "PFunc 3"]
    remove_handler_first_occurrence
    [of "snd (Event_init [PFunc 2, PFunc 1, PFunc 3, PFunc 1] (empty_heap ()))" 0 0 "PFunc 1"
        "[PFunc 2]" "PFunc 1" "[PFunc 3, PFunc 1]"]
  by (simp add: Event_init_def empty_heap_def)

text \<open>
  C10. \<^verbatim>\<open>Event(v)\<close> succeeds for every value \<open>v\<close> and the new Event's handler list is
  \<open>[v]\<close>: the constructor does not check that \<open>v\<close> is callable, while \<^verbatim>\<open>add_handler\<close>
  refuses the same value when it is not.
\<close>

theorem Event_init_takes_any_value:
  "fst (Event_init [v] h) = fresh h \<and>
   handlers (evs (snd (Event_init [v] h)) (fresh h)) = [v] \<and>
   (\<not> callable v \<longrightarrow> add_handler a v h = (Some TypeError, h))"
  by (simp add: Event_init_def add_handler_def)

theorem Event_init_takes_any_value_witness:
  "\<not> callable (PStr ''x'') \<and>
   handlers (evs (snd (Event_init [PStr ''x''] (empty_heap ()))) 0) = [PStr ''x''] \<and>
   add_handler 0 (PStr ''x'') (empty_heap ()) = (Some TypeError, empty_heap ())"
  using Event_init_takes_any_value [of "PStr ''x''" "empty_heap ()" 0]
  by (simp add: empty_heap_def)

section \<open>Properties of firing\<close>

lemma run_all_Nil: "run_all env [] args kw h = h"
  by (simp add: run_all_def)

lemma run_all_Cons:
  "run_all env (f # fs) args kw h = run_all env fs args kw (snd (env f args kw h))"
  by (simp add: run_all_def)

lemma invocations_Cons:
  "invocations (f # fs) args kw = (PFunc f, args, kw) # invocations fs args kw"
  by (simp add: invocations_def)

lemma call_value_normal:
  "returns_normally env f args kw \<Longrightarrow>
   call_value env n (PFunc f) args kw (h, tr) = Some (None, (snd (env f args kw h), tr))"
  by (cases "env f args kw h") (auto simp: returns_normally_def dest: spec [of _ h])


lemma dispatch_step:
  assumes "i < length (handlers (evs h self))"
  shows "dispatch env (Suc n) self i args kw (h, tr) =
     (case call_value env n (handlers (evs h self) ! i) args kw
             (h, tr @ [(handlers (evs h self) ! i, args, kw)]) of
        None \<Rightarrow> None
      | Some (Some e, s') \<Rightarrow>
          if e = StopIteration then Some (None, s') else Some (Some e, s')
      | Some (None, s') \<Rightarrow> dispatch env n self (Suc i) args kw s')"
  using assms by simp

lemma dispatch_end:
  "\<not> i < length (handlers (evs h self)) \<Longrightarrow>
   dispatch env n self i args kw (h, tr) = Some (None, (h, tr))"
  by simp

text \<open>
  The loop over handlers that are functions, each returning normally and leaving the
  Event's handler list alone: it calls them once each, in list order, and ends.
\<close>

lemma dispatch_functions:
  assumes "handlers (evs h self) = pre @ map PFunc fs"
    and "\<forall>f\<in>set fs. returns_normally env f args kw \<and> keeps_handlers env f args kw self"
    and "length fs \<le> n"
  shows "dispatch env n self (length pre) args kw (h, tr) =
           Some (None, (run_all env fs args kw h, tr @ invocations fs args kw))"
  using assms
proof (induction fs arbitrary: pre h tr n)
  case Nil
  then show ?case
    by (simp only: dispatch_end run_all_Nil invocations_def list.map append_Nil2 less_irrefl
        not_False_eq_True)
next
  case (Cons f fs)
  from Cons.prems(3) obtain n' where n: "n = Suc n'" and len: "length fs \<le> n'"
    by (cases n) auto
  have norm: "returns_normally env f args kw" and keep: "keeps_handlers env f args kw self"
    using Cons.prems(2) by auto
  have idx: "length pre < length (handlers (evs h self))"
    and nth: "handlers (evs h self) ! length pre = PFunc f"
    using Cons.prems(1) by auto
  let ?h1 = "snd (env f args kw h)"
  have hs1: "handlers (evs ?h1 self) = (pre @ [PFunc f]) @ map PFunc fs"
    using keep Cons.prems(1) by (simp add: keeps_handlers_def)
  have rest: "\<forall>g\<in>set fs. returns_normally env g args kw \<and> keeps_handlers env g args kw self"
    using Cons.prems(2) by auto
  have IH: "dispatch env n' self (length (pre @ [PFunc f])) args kw
              (?h1, tr @ [(PFunc f, args, kw)]) =
            Some (None, (run_all env fs args kw ?h1,
                         (tr @ [(PFunc f, args, kw)]) @ invocations fs args kw))"
    by (rule Cons.IH [OF hs1 rest len])
  show ?case
    unfolding n dispatch_step [OF idx] nth call_value_normal [OF norm]
    using IH by (simp add: run_all_Cons invocations_Cons)
qed


lemma notify_global_unowned:
  "eventmanager (evs h self) = None \<Longrightarrow>
   notify_global env n self args kw (h, tr) = Some (None, (h, tr))"
  by (simp add: truthy_eventmanager_def)

lemma notify_global_owned:
  assumes "eventmanager (evs h self) = Some m" and "mgrs h m \<noteq> []"
    and "getattr m ''got_event'' h = (Inr g, h)"
  shows "notify_global env (Suc n) self args kw (h, tr) =
           call_value env n g (name (evs h self) # args) kw (h, tr)"
  using assms by (simp add: truthy_eventmanager_def)

lemma run_all_keeps_handlers:
  "\<forall>f\<in>set fs. keeps_handlers env f args kw a \<Longrightarrow>
   handlers (evs (run_all env fs args kw h) a) = handlers (evs h a)"
  by (induction fs arbitrary: h) (simp_all add: run_all_Nil run_all_Cons keeps_handlers_def)


lemma setitem_Event:
  assumes "setitem m key (PEvent e) h0 = (None, h)"
  shows "eventmanager (evs h e) = Some m" and "name (evs h e) = key"
    and "handlers (evs h e) = handlers (evs h0 e)" and "mgrs h m \<noteq> []"
    and "map_of (mgrs h m) key = Some (PEvent e)"
  using assms by (auto simp: setitem_def Let_def update_conv split: if_splits)



lemma fire_functions:
  assumes "notify_global env n self args kw (h, tr) = Some (None, (h1, tr1))"
    and "handlers (evs h1 self) = map PFunc fs"
    and "\<forall>f\<in>set fs. returns_normally env f args kw \<and> keeps_handlers env f args kw self"
    and "length fs \<le> n"
  shows "fire env (Suc n) self args kw (h, tr) =
           Some (None, (run_all env fs args kw h1, tr1 @ invocations fs args kw))"
proof -
  have "handlers (evs h1 self) = [] @ map PFunc fs"
    using assms(2) by simp
  from dispatch_functions [OF this assms(3) assms(4)]
  have "dispatch env n self 0 args kw (h1, tr1) =
          Some (None, (run_all env fs args kw h1, tr1 @ invocations fs args kw))"
    by simp
  then show ?thesis
    using assms(1) by simp
qed





text \<open>
  The loop reads the list as it is at each step. When the first handler removes itself
  from the list while it runs, the handler that was second is skipped: this is why the
  properties above ask that the handlers leave the list alone.
\<close>

lemma dispatch_reads_the_live_list:
  "fire remover_env (Suc (Suc (Suc (Suc 0)))) 0 [] []
     (snd (Event_init [PFunc 1, PFunc 2, PFunc 3] (empty_heap ())), []) =
   Some (None, (snd (Event_init [PFunc 2, PFunc 3] (empty_heap ())),
      [(PFunc 1, [], []), (PFunc 3, [], [])]))"
  by (simp add: remover_env_def Event_init_def empty_heap_def truthy_eventmanager_def)

section \<open>Properties of EventManager\<close>

text \<open>What the constructor of the manager builds, in one equation.\<close>

lemma EventManager_init_eq:
  "EventManager_init init h =
     Inr (fresh h,
          h\<lparr>evs := (evs h)(Suc (fresh h) :=
                 \<lparr>handlers = [], eventmanager = None, name = PStr ''GLOBAL''\<rparr>),
            mgrs := (mgrs h)(fresh h :=
                 AList.update (PStr ''got_event'') (PEvent (Suc (fresh h))) init),
            fresh := Suc (Suc (fresh h))\<rparr>)"
  by (simp add: EventManager_init_def Event_init_def setattr_def setitem_def getattr_def
      getitem_def set_name_def set_eventmanager_def Let_def update_conv)

text \<open>
  C4, as the code has it. The constructor assigns \<^verbatim>\<open>self.got_event\<close>, and every
  attribute assignment on a manager is an item assignment: the global Event is a regular
  entry of the mapping, under the key \<^verbatim>\<open>got_event\<close>, and that entry is what reading
  \<^verbatim>\<open>got_event\<close> returns. The Event is named \<^verbatim>\<open>GLOBAL\<close> and has no owner and no
  handlers.
\<close>

theorem global_event_stored_under_got_event:
  "\<exists>h'. EventManager_init init h = Inr (fresh h, h') \<and>
        getattr (fresh h) ''got_event'' h' = (Inr (PEvent (Suc (fresh h))), h') \<and>
        (PStr ''got_event'', PEvent (Suc (fresh h))) \<in> set (mgrs h' (fresh h)) \<and>
        evs h' (Suc (fresh h)) =
          \<lparr>handlers = [], eventmanager = None, name = PStr ''GLOBAL''\<rparr>"
  by (simp add: EventManager_init_eq getattr_def getitem_def update_conv map_of_SomeD)

text \<open>
  The claim that the mapping holds no entry for the global Event after construction fails
  on a manager built from no arguments: its only entry is the global Event.
\<close>

theorem global_event_is_stored_counterexample:
  "EventManager_init [] (empty_heap ()) =
     Inr (0, snd (projr (EventManager_init [] (empty_heap ())))) \<and>
   mgrs (snd (projr (EventManager_init [] (empty_heap ())))) 0 =
     [(PStr ''got_event'', PEvent 1)] \<and>
   getattr 0 ''got_event'' (snd (projr (EventManager_init [] (empty_heap ())))) =
     (Inr (PEvent 1), snd (projr (EventManager_init [] (empty_heap ())))) \<and>
   name (evs (snd (projr (EventManager_init [] (empty_heap ())))) 1) = PStr ''GLOBAL''"
  by (simp add: EventManager_init_eq empty_heap_def getattr_def getitem_def)






text \<open>
  C2. An Event \<open>e\<close> has been stored in the manager \<open>m\<close> under \<open>key\<close>, and \<open>g\<close> is what
  \<open>m\<close> holds as \<^verbatim>\<open>got_event\<close>. Firing \<open>e\<close> with \<open>args\<close> first calls \<open>g\<close> with \<open>key\<close>
  followed by \<open>args\<close> (and the same keyword arguments); only when that call has returned
  normally does the loop over the handlers of \<open>e\<close> start. In particular, when \<open>g\<close> is an
  unowned Event whose handlers are the functions \<open>gs\<close> and the handlers of \<open>e\<close> are the
  functions \<open>fs\<close> (all returning normally and leaving both handler lists alone), the
  invocations are those of \<open>gs\<close> with the name prepended, then those of \<open>fs\<close>.
\<close>

theorem fire_notifies_global_event_first:
  assumes "setitem m key (PEvent e) h0 = (None, h)"
    and "getattr m ''got_event'' h = (Inr g, h)"
  shows "fire env (Suc (Suc (Suc n))) e args kw (h, tr) =
           (case call_value env (Suc n) g (key # args) kw (h, tr) of
              None \<Rightarrow> None
            | Some (Some x, s') \<Rightarrow> Some (Some x, s')
            | Some (None, s') \<Rightarrow> dispatch env (Suc (Suc n)) e 0 args kw s') \<and>
         (g = PEvent ge \<and> eventmanager (evs h ge) = None \<and>
          handlers (evs h ge) = map PFunc gs \<and> handlers (evs h e) = map PFunc fs \<and>
          (\<forall>f\<in>set gs. returns_normally env f (key # args) kw \<and>
                      keeps_handlers env f (key # args) kw ge \<and>
                      keeps_handlers env f (key # args) kw e) \<and>
          (\<forall>f\<in>set fs. returns_normally env f args kw \<and> keeps_handlers env f args kw e) \<and>
          length gs \<le> n \<and> length fs \<le> n \<longrightarrow>
          fire env (Suc (Suc (Suc n))) e args kw (h, tr) =
            Some (None, (run_all env fs args kw (run_all env gs (key # args) kw h),
                         tr @ invocations gs (key # args) kw @ invocations fs args kw)))"
proof -
  note st = setitem_Event [OF assms(1)]
  have ng: "notify_global env (Suc (Suc n)) e args kw (h, tr) =
              call_value env (Suc n) g (key # args) kw (h, tr)"
    using notify_global_owned [OF st(1) st(4) assms(2), of env "Suc n" args kw tr]
    by (simp only: st(2))
  have first: "fire env (Suc (Suc (Suc n))) e args kw (h, tr) =
           (case call_value env (Suc n) g (key # args) kw (h, tr) of
              None \<Rightarrow> None
            | Some (Some x, s') \<Rightarrow> Some (Some x, s')
            | Some (None, s') \<Rightarrow> dispatch env (Suc (Suc n)) e 0 args kw s')"
    by (simp only: fire.simps ng)
  have second: "fire env (Suc (Suc (Suc n))) e args kw (h, tr) =
            Some (None, (run_all env fs args kw (run_all env gs (key # args) kw h),
                         tr @ invocations gs (key # args) kw @ invocations fs args kw))"
    if g: "g = PEvent ge" and un: "eventmanager (evs h ge) = None"
      and hg: "handlers (evs h ge) = map PFunc gs" and he: "handlers (evs h e) = map PFunc fs"
      and okg: "\<forall>f\<in>set gs. returns_normally env f (key # args) kw \<and>
                      keeps_handlers env f (key # args) kw ge \<and>
                      keeps_handlers env f (key # args) kw e"
      and okf: "\<forall>f\<in>set fs. returns_normally env f args kw \<and> keeps_handlers env f args kw e"
      and lg: "length gs \<le> n" and lf: "length fs \<le> n"
  proof -
    let ?h1 = "run_all env gs (key # args) kw h"
    let ?tr1 = "tr @ invocations gs (key # args) kw"
    have okg1: "\<forall>f\<in>set gs. returns_normally env f (key # args) kw \<and>
                      keeps_handlers env f (key # args) kw ge"
      and okg2: "\<forall>f\<in>set gs. keeps_handlers env f (key # args) kw e"
      using okg by auto
    have "fire env (Suc n) ge (key # args) kw (h, tr) = Some (None, (?h1, ?tr1))"
      by (rule fire_functions [OF notify_global_unowned [OF un] hg okg1 lg])
    then have ng': "notify_global env (Suc (Suc n)) e args kw (h, tr) = Some (None, (?h1, ?tr1))"
      unfolding ng g by simp
    have he1: "handlers (evs ?h1 e) = map PFunc fs"
      using run_all_keeps_handlers [OF okg2] he by simp
    have "length fs \<le> Suc (Suc n)" using lf by simp
    from fire_functions [OF ng' he1 okf this] show ?thesis by simp
  qed
  show ?thesis
  proof (intro conjI impI)
    show "fire env (Suc (Suc (Suc n))) e args kw (h, tr) =
           (case call_value env (Suc n) g (key # args) kw (h, tr) of
              None \<Rightarrow> None
            | Some (Some x, s') \<Rightarrow> Some (Some x, s')
            | Some (None, s') \<Rightarrow> dispatch env (Suc (Suc n)) e 0 args kw s')"
      by (rule first)
  next
    assume H: "g = PEvent ge \<and> eventmanager (evs h ge) = None \<and>
          handlers (evs h ge) = map PFunc gs \<and> handlers (evs h e) = map PFunc fs \<and>
          (\<forall>f\<in>set gs. returns_normally env f (key # args) kw \<and>
                      keeps_handlers env f (key # args) kw ge \<and>
                      keeps_handlers env f (key # args) kw e) \<and>
          (\<forall>f\<in>set fs. returns_normally env f args kw \<and> keeps_handlers env f args kw e) \<and>
          length gs \<le> n \<and> length fs \<le> n"
    show "fire env (Suc (Suc (Suc n))) e args kw (h, tr) =
            Some (None, (run_all env fs args kw (run_all env gs (key # args) kw h),
                         tr @ invocations gs (key # args) kw @ invocations fs args kw))"
      by (rule second) (insert H, blast)+
  qed
qed

lemma foo_bound_eq:
  "foo_bound =
     \<lparr>evs = (\<lambda>a. \<lparr>handlers = [], eventmanager = None, name = PNone\<rparr>)
        (1 := \<lparr>handlers = [PFunc 10], eventmanager = None, name = PStr ''GLOBAL''\<rparr>,
         2 := \<lparr>handlers = [PFunc 1, PFunc 2], eventmanager = Some 0, name = PStr ''foo''\<rparr>),
      mgrs = (\<lambda>a. [])(0 := [(PStr ''got_event'', PEvent 1), (PStr ''foo'', PEvent 2)]),
      fresh = 3, user = []\<rparr>"
  by (simp add: foo_bound_def foo_unbound_def new_manager_def EventManager_init_eq
      empty_heap_def setattr_def setitem_def Event_init_def add_handler_def Let_def
      eval_nat_numeral)

theorem fire_notifies_global_event_first_witness:
  "setitem 0 (PStr ''foo'') (PEvent 2) foo_unbound = (None, foo_bound) \<and>
   getattr 0 ''got_event'' foo_bound = (Inr (PEvent 1), foo_bound) \<and>
   fire log_env (Suc (Suc (Suc 2))) 2 [PInt 1, PInt 2] [] (foo_bound, []) =
     Some (None,
       (foo_bound\<lparr>user := [(10, [PStr ''foo'', PInt 1, PInt 2]), (1, [PInt 1, PInt 2]),
                            (2, [PInt 1, PInt 2])]\<rparr>,
        [(PFunc 10, [PStr ''foo'', PInt 1, PInt 2], []), (PFunc 1, [PInt 1, PInt 2], []),
         (PFunc 2, [PInt 1, PInt 2], [])]))"
proof -
  have a: "setitem 0 (PStr ''foo'') (PEvent 2) foo_unbound = (None, foo_bound)"
    by (simp add: foo_bound_def setattr_def setitem_def Let_def)
  have b: "getattr 0 ''got_event'' foo_bound = (Inr (PEvent 1), foo_bound)"
    by (simp add: foo_bound_eq getattr_def getitem_def)
  have c: "PEvent 1 = PEvent 1 \<and> eventmanager (evs foo_bound 1) = None \<and>
      handlers (evs foo_bound 1) = map PFunc [10] \<and>
      handlers (evs foo_bound 2) = map PFunc [1, 2] \<and>
      (\<forall>f\<in>set [10]. returns_normally log_env f (PStr ''foo'' # [PInt 1, PInt 2]) [] \<and>
                  keeps_handlers log_env f (PStr ''foo'' # [PInt 1, PInt 2]) [] 1 \<and>
                  keeps_handlers log_env f (PStr ''foo'' # [PInt 1, PInt 2]) [] 2) \<and>
      (\<forall>f\<in>set [1, 2]. returns_normally log_env f [PInt 1, PInt 2] [] \<and>
                  keeps_handlers log_env f [PInt 1, PInt 2] [] 2) \<and>
      length [10::nat] \<le> 2 \<and> length [1::nat, 2] \<le> 2"
    by (simp add: foo_bound_eq returns_normally_def keeps_handlers_def log_env_def)
  have d: "run_all log_env [1, 2] [PInt 1, PInt 2] []
             (run_all log_env [10] (PStr ''foo'' # [PInt 1, PInt 2]) [] foo_bound) =
           foo_bound\<lparr>user := [(10, [PStr ''foo'', PInt 1, PInt 2]), (1, [PInt 1, PInt 2]),
                            (2, [PInt 1, PInt 2])]\<rparr>"
    by (simp add: foo_bound_eq run_all_def log_env_def)
  have e: "[] @ invocations [10] (PStr ''foo'' # [PInt 1, PInt 2]) [] @
             invocations [1, 2] [PInt 1, PInt 2] [] =
           [(PFunc 10, [PStr ''foo'', PInt 1, PInt 2], []), (PFunc 1, [PInt 1, PInt 2], []),
            (PFunc 2, [PInt 1, PInt 2], [])]"
    by (simp add: invocations_def)
  from fire_notifies_global_event_first [OF a b, where env = log_env
      and n = 2 and args = "[PInt 1, PInt 2]" and kw = "[]" and tr = "[]" and ge = 1
      and gs = "[10]" and fs = "[1, 2]"] c
  have "fire log_env (Suc (Suc (Suc 2))) 2 [PInt 1, PInt 2] [] (foo_bound, []) =
          Some (None, (run_all log_env [1, 2] [PInt 1, PInt 2] []
             (run_all log_env [10] (PStr ''foo'' # [PInt 1, PInt 2]) [] foo_bound),
             [] @ invocations [10] (PStr ''foo'' # [PInt 1, PInt 2]) [] @
             invocations [1, 2] [PInt 1, PInt 2] []))"
    by blast
  then show ?thesis
    unfolding d e using a b by blast
qed

section \<open>Properties of apply\<close>

text \<open>The three ways one step of the loop goes through, and the two ways it raises.\<close>

lemma apply_step_skip:
  assumes "map_of obj nm = Some v" and "\<not> public_callable obj nm"
  shows "apply_step ver m obj nm h = (None, h)"
  using assms by (auto simp: apply_step_def getattr_obj_def public_callable_def)

lemma apply_step_existing:
  assumes "map_of obj nm = Some v" and "callable v" and "\<not> startswith_underscore nm"
    and "entry h m nm = Some (PEvent a)"
  shows "apply_step ver m obj nm h =
           (None, h\<lparr>evs := (evs h)(a := (evs h a)\<lparr>handlers := handlers (evs h a) @ [v]\<rparr>)\<rparr>)"
  using assms
  by (simp add: apply_step_def getattr_obj_def hasattr_def getattr_def getitem_def entry_def
      call_add_handler_def add_handler_def)

lemma apply_step_new:
  assumes "map_of obj nm = Some v" and "callable v" and "\<not> startswith_underscore nm"
    and "nm \<notin> set (class_attrs Py2)" and "entry h m nm = None"
  shows "apply_step Py2 m obj nm h =
           (None, h\<lparr>evs := (evs h)(fresh h :=
                        \<lparr>handlers = [v], eventmanager = Some m, name = PStr nm\<rparr>),
                     mgrs := (mgrs h)(m := AList.update (PStr nm) (PEvent (fresh h)) (mgrs h m)),
                     fresh := Suc (fresh h)\<rparr>)"
  using assms
  by (simp add: apply_step_def getattr_obj_def hasattr_def getattr_def getitem_def entry_def
      call_add_handler_def add_handler_def Event_init_def setitem_def Let_def update_conv)

lemma apply_step_py3_new:
  assumes "map_of obj nm = Some v" and "callable v" and "\<not> startswith_underscore nm"
    and "nm \<notin> set (class_attrs Py3)" and "entry h m nm = None"
  shows "apply_step Py3 m obj nm h = (Some KeyError, h)"
  using assms
  by (simp add: apply_step_def getattr_obj_def hasattr_def getattr_def getitem_def entry_def)

lemma apply_step_class_attr:
  assumes "map_of obj nm = Some v" and "callable v" and "\<not> startswith_underscore nm"
    and "nm \<in> set (class_attrs ver)" and "entry h m nm = None"
  shows "apply_step ver m obj nm h = (Some KeyError, h)"
  using assms
  by (simp add: apply_step_def getattr_obj_def hasattr_def getattr_def getitem_def entry_def)

lemma applied_empty: "applied m obj {} h h"
  by (simp add: applied_def)

lemma applied_compose:
  assumes "applied m obj S h h1" and "applied m obj T h1 h2" and "S \<inter> T = {}"
  shows "applied m obj (S \<union> T) h h2"
  unfolding applied_def
proof (intro allI)
  fix nm
  have 1: "if public_callable obj nm \<and> nm \<in> S
           then (\<exists>a. entry h1 m nm = Some (PEvent a)) \<and>
                (entry h m nm = None \<or> entry h m nm = entry h1 m nm) \<and>
                handlers_under h1 m nm = handlers_under h m nm @ [the (map_of obj nm)]
           else entry h1 m nm = entry h m nm \<and>
                (public_callable obj nm \<longrightarrow> handlers_under h1 m nm = handlers_under h m nm)"
    using assms(1) unfolding applied_def by (rule spec)
  have 2: "if public_callable obj nm \<and> nm \<in> T
           then (\<exists>a. entry h2 m nm = Some (PEvent a)) \<and>
                (entry h1 m nm = None \<or> entry h1 m nm = entry h2 m nm) \<and>
                handlers_under h2 m nm = handlers_under h1 m nm @ [the (map_of obj nm)]
           else entry h2 m nm = entry h1 m nm \<and>
                (public_callable obj nm \<longrightarrow> handlers_under h2 m nm = handlers_under h1 m nm)"
    using assms(2) unfolding applied_def by (rule spec)
  have 3: "\<not> (nm \<in> S \<and> nm \<in> T)"
    using assms(3) by blast
  show "if public_callable obj nm \<and> nm \<in> S \<union> T
           then (\<exists>a. entry h2 m nm = Some (PEvent a)) \<and>
                (entry h m nm = None \<or> entry h m nm = entry h2 m nm) \<and>
                handlers_under h2 m nm = handlers_under h m nm @ [the (map_of obj nm)]
           else entry h2 m nm = entry h m nm \<and>
                (public_callable obj nm \<longrightarrow> handlers_under h2 m nm = handlers_under h m nm)"
    using 1 2 3 by (auto split: if_splits)
qed

lemma apply_ready_spec:
  assumes "apply_ready ver m obj h" and "public_callable obj nm"
  shows "nm \<notin> set (class_attrs ver) \<and>
        (entry h m nm = None \<or>
         (\<exists>a. entry h m nm = Some (PEvent a) \<and> a < fresh h \<and>
              (\<forall>nm'. public_callable obj nm' \<and> entry h m nm' = Some (PEvent a) \<longrightarrow> nm' = nm)))"
  using assms unfolding apply_ready_def by (elim allE [of _ nm] impE) assumption+

lemma apply_readyD:
  assumes "apply_ready ver m obj h" and "public_callable obj nm"
  shows "nm \<notin> set (class_attrs ver)"
    and "entry h m nm = None \<or> (\<exists>a. entry h m nm = Some (PEvent a))"
    and "entry h m nm = Some (PEvent a) \<Longrightarrow> a < fresh h"
    and "entry h m nm = Some (PEvent a) \<Longrightarrow> public_callable obj nm' \<Longrightarrow>
         entry h m nm' = Some (PEvent a) \<Longrightarrow> nm' = nm"
proof -
  note s = apply_ready_spec [OF assms]
  show "nm \<notin> set (class_attrs ver)" using s by (rule conjunct1)
  show "entry h m nm = None \<or> (\<exists>a. entry h m nm = Some (PEvent a))"
    using s by blast
  show "a < fresh h" if "entry h m nm = Some (PEvent a)"
    using s that by auto
  show "nm' = nm" if "entry h m nm = Some (PEvent a)" "public_callable obj nm'"
      "entry h m nm' = Some (PEvent a)"
    using s that by auto
qed

lemma new_entry:
  "entry (h\<lparr>evs := (evs h)(fresh h :=
                        \<lparr>handlers = [v], eventmanager = Some m, name = PStr nm\<rparr>),
                     mgrs := (mgrs h)(m := AList.update (PStr nm) (PEvent (fresh h)) (mgrs h m)),
                     fresh := Suc (fresh h)\<rparr>) m nm' = (if nm' = nm then Some (PEvent (fresh h)) else entry h m nm')"
  by (simp add: entry_def update_conv)

lemma new_evs:
  "evs (h\<lparr>evs := (evs h)(fresh h :=
                        \<lparr>handlers = [v], eventmanager = Some m, name = PStr nm\<rparr>),
                     mgrs := (mgrs h)(m := AList.update (PStr nm) (PEvent (fresh h)) (mgrs h m)),
                     fresh := Suc (fresh h)\<rparr>) a = (if a = fresh h
           then \<lparr>handlers = [v], eventmanager = Some m, name = PStr nm\<rparr> else evs h a)"
  by simp

lemma step_new_applied:
  assumes ready: "apply_ready Py2 m obj h"
    and v: "map_of obj nm = Some v" and pc: "public_callable obj nm"
    and none: "entry h m nm = None"
    and h1: "h1 = h\<lparr>evs := (evs h)(fresh h :=
                        \<lparr>handlers = [v], eventmanager = Some m, name = PStr nm\<rparr>),
                     mgrs := (mgrs h)(m := AList.update (PStr nm) (PEvent (fresh h)) (mgrs h m)),
                     fresh := Suc (fresh h)\<rparr>"
  shows "applied m obj {nm} h h1 \<and> apply_ready Py2 m obj h1"
proof -
  have e: "\<And>nm'. entry h1 m nm' = (if nm' = nm then Some (PEvent (fresh h)) else entry h m nm')"
    unfolding h1 by (rule new_entry)
  have ev: "\<And>a. evs h1 a = (if a = fresh h
           then \<lparr>handlers = [v], eventmanager = Some m, name = PStr nm\<rparr> else evs h a)"
    unfolding h1 by (rule new_evs)
  have fr: "fresh h1 = Suc (fresh h)"
    unfolding h1 by simp
  have lt: "a < fresh h" if "public_callable obj nm'" "entry h m nm' = Some (PEvent a)" for nm' a
    using apply_readyD(3) [OF ready that] .
  have hu: "handlers_under h1 m nm' = handlers_under h m nm'"
    if p: "public_callable obj nm'" and ne: "nm' \<noteq> nm" for nm'
  proof (cases "\<exists>a. entry h m nm' = Some (PEvent a)")
    case True
    then obtain a where a: "entry h m nm' = Some (PEvent a)" by blast
    have "a \<noteq> fresh h" using lt [OF p a] by simp
    then show ?thesis using a ne by (simp add: handlers_under_def e ev)
  next
    case False
    then have "entry h m nm' = None" using apply_readyD(2) [OF ready p] by blast
    then show ?thesis using ne by (simp add: handlers_under_def e)
  qed
  have hu1: "handlers_under h1 m nm = [v]"
    by (simp add: handlers_under_def e ev)
  have hu0: "handlers_under h m nm = []"
    using none by (simp add: handlers_under_def)
  have A: "applied m obj {nm} h h1"
    unfolding applied_def
  proof (intro allI)
    fix nm'
    show "if public_callable obj nm' \<and> nm' \<in> {nm}
           then (\<exists>a. entry h1 m nm' = Some (PEvent a)) \<and>
                (entry h m nm' = None \<or> entry h m nm' = entry h1 m nm') \<and>
                handlers_under h1 m nm' = handlers_under h m nm' @ [the (map_of obj nm')]
           else entry h1 m nm' = entry h m nm' \<and>
                (public_callable obj nm' \<longrightarrow> handlers_under h1 m nm' = handlers_under h m nm')"
    proof (cases "nm' = nm")
      case True
      then show ?thesis using pc v none hu1 hu0 by (simp add: e)
    next
      case False
      then show ?thesis using hu by (simp add: e)
    qed
  qed
  have B: "apply_ready Py2 m obj h1"
    unfolding apply_ready_def
  proof (intro allI impI)
    fix nm' assume p: "public_callable obj nm'"
    note r = apply_readyD [OF ready p]
    show "nm' \<notin> set (class_attrs Py2) \<and>
        (entry h1 m nm' = None \<or>
         (\<exists>a. entry h1 m nm' = Some (PEvent a) \<and> a < fresh h1 \<and>
              (\<forall>nm''. public_callable obj nm'' \<and> entry h1 m nm'' = Some (PEvent a) \<longrightarrow> nm'' = nm')))"
    proof (cases "nm' = nm")
      case True
      have "nm'' = nm" if "public_callable obj nm''" "entry h1 m nm'' = Some (PEvent (fresh h))" for nm''
      proof (rule ccontr)
        assume "nm'' \<noteq> nm"
        then have "entry h m nm'' = Some (PEvent (fresh h))" using that(2) by (simp add: e)
        from lt [OF that(1) this] show False by simp
      qed
      then show ?thesis using True r(1) by (simp add: e fr)
    next
      case False
      from r(2) show ?thesis
      proof
        assume "entry h m nm' = None"
        then show ?thesis using False r(1) by (simp add: e)
      next
        assume "\<exists>a. entry h m nm' = Some (PEvent a)"
        then obtain a where a: "entry h m nm' = Some (PEvent a)" by blast
        have alt: "a < fresh h" by (rule r(3) [OF a])
        have "nm'' = nm'" if "public_callable obj nm''" "entry h1 m nm'' = Some (PEvent a)" for nm''
        proof -
          have "nm'' \<noteq> nm" using that(2) alt by (auto simp: e)
          then have "entry h m nm'' = Some (PEvent a)" using that(2) by (simp add: e)
          from r(4) [OF a that(1) this] show ?thesis .
        qed
        then show ?thesis using False r(1) a alt by (simp add: e fr)
      qed
    qed
  qed
  from A B show ?thesis ..
qed

lemma step_existing_applied:
  assumes ready: "apply_ready Py2 m obj h"
    and v: "map_of obj nm = Some v" and pc: "public_callable obj nm"
    and a: "entry h m nm = Some (PEvent a)"
    and h1: "h1 = h\<lparr>evs := (evs h)(a := (evs h a)\<lparr>handlers := handlers (evs h a) @ [v]\<rparr>)\<rparr>"
  shows "applied m obj {nm} h h1 \<and> apply_ready Py2 m obj h1"
proof -
  have e: "\<And>nm'. entry h1 m nm' = entry h m nm'"
    unfolding h1 by (simp add: entry_def)
  have fr: "fresh h1 = fresh h"
    unfolding h1 by simp
  have ev: "\<And>b. evs h1 b = (if b = a then (evs h a)\<lparr>handlers := handlers (evs h a) @ [v]\<rparr>
                              else evs h b)"
    unfolding h1 by simp
  have hu: "handlers_under h1 m nm' = handlers_under h m nm'"
    if p: "public_callable obj nm'" and ne: "nm' \<noteq> nm" for nm'
  proof (cases "\<exists>b. entry h m nm' = Some (PEvent b)")
    case True
    then obtain b where b: "entry h m nm' = Some (PEvent b)" by blast
    have "b \<noteq> a"
    proof
      assume "b = a"
      with b have "entry h m nm' = Some (PEvent a)" by simp
      from apply_readyD(4) [OF ready pc a p this] ne show False by simp
    qed
    then show ?thesis using b by (simp add: handlers_under_def e ev)
  next
    case False
    then have "entry h m nm' = None" using apply_readyD(2) [OF ready p] by blast
    then show ?thesis by (simp add: handlers_under_def e)
  qed
  have hu1: "handlers_under h1 m nm = handlers_under h m nm @ [v]"
    using a by (simp add: handlers_under_def e ev)
  have A: "applied m obj {nm} h h1"
    unfolding applied_def
  proof (intro allI)
    fix nm'
    show "if public_callable obj nm' \<and> nm' \<in> {nm}
           then (\<exists>a. entry h1 m nm' = Some (PEvent a)) \<and>
                (entry h m nm' = None \<or> entry h m nm' = entry h1 m nm') \<and>
                handlers_under h1 m nm' = handlers_under h m nm' @ [the (map_of obj nm')]
           else entry h1 m nm' = entry h m nm' \<and>
                (public_callable obj nm' \<longrightarrow> handlers_under h1 m nm' = handlers_under h m nm')"
    proof (cases "nm' = nm")
      case True
      then show ?thesis using pc v a hu1 by (simp add: e)
    next
      case False
      then show ?thesis using hu by (simp add: e)
    qed
  qed
  have B: "apply_ready Py2 m obj h1"
    using ready unfolding apply_ready_def by (simp only: e fr)
  from A B show ?thesis ..
qed

lemma step_applied:
  assumes ready: "apply_ready Py2 m obj h" and v: "map_of obj nm = Some v"
  shows "\<exists>h1. apply_step Py2 m obj nm h = (None, h1) \<and> applied m obj {nm} h h1 \<and>
              apply_ready Py2 m obj h1"
proof (cases "public_callable obj nm")
  case False
  have "apply_step Py2 m obj nm h = (None, h)"
    by (rule apply_step_skip [OF v False])
  moreover have "applied m obj {nm} h h"
    using False by (auto simp: applied_def)
  ultimately show ?thesis using ready by blast
next
  case True
  then have c: "callable v" and u: "\<not> startswith_underscore nm"
    using v by (simp_all add: public_callable_def)
  note r = apply_readyD [OF ready True]
  from r(2) show ?thesis
  proof
    assume none: "entry h m nm = None"
    from apply_step_new [OF v c u r(1) none]
      step_new_applied [OF ready v True none refl]
    show ?thesis by blast
  next
    assume "\<exists>a. entry h m nm = Some (PEvent a)"
    then obtain a where a: "entry h m nm = Some (PEvent a)" by blast
    from apply_step_existing [OF v c u a, of Py2]
      step_existing_applied [OF ready v True a refl]
    show ?thesis by blast
  qed
qed

lemma apply_loop_applied:
  assumes "apply_ready Py2 m obj h" and "distinct ns"
    and "\<forall>nm\<in>set ns. \<exists>v. map_of obj nm = Some v"
  shows "\<exists>h'. apply_loop Py2 m obj ns h = (None, h') \<and> applied m obj (set ns) h h' \<and>
              apply_ready Py2 m obj h'"
  using assms
proof (induction ns arbitrary: h)
  case Nil
  then show ?case by (simp add: applied_empty)
next
  case (Cons nm ns)
  from Cons.prems(3) obtain v where v: "map_of obj nm = Some v" by auto
  from step_applied [OF Cons.prems(1) v] obtain h1
    where s: "apply_step Py2 m obj nm h = (None, h1)" and a1: "applied m obj {nm} h h1"
      and r1: "apply_ready Py2 m obj h1" by blast
  have d: "distinct ns" and rest: "\<forall>nm\<in>set ns. \<exists>v. map_of obj nm = Some v"
    using Cons.prems(2,3) by simp_all
  from Cons.IH [OF r1 d rest] obtain h'
    where l: "apply_loop Py2 m obj ns h1 = (None, h')" and a2: "applied m obj (set ns) h1 h'"
      and r2: "apply_ready Py2 m obj h'" by blast
  have "{nm} \<inter> set ns = {}" using Cons.prems(2) by simp
  from applied_compose [OF a1 a2 this] have "applied m obj (set (nm # ns)) h h'" by simp
  moreover have "apply_loop Py2 m obj (nm # ns) h = (None, h')"
    using s l by simp
  ultimately show ?case using r2 by blast
qed

lemma dir_py_distinct: "distinct (dir_py obj)"
  by (simp add: dir_py_def)

lemma dir_py_members: "\<forall>nm\<in>set (dir_py obj). \<exists>v. map_of obj nm = Some v"
proof
  fix nm assume "nm \<in> set (dir_py obj)"
  then have "nm \<in> fst ` set obj" by (simp add: dir_py_def)
  then have "map_of obj nm \<noteq> None" by (simp add: map_of_eq_None_iff)
  then show "\<exists>v. map_of obj nm = Some v" by blast
qed

lemma apply_applied:
  assumes "apply_ready Py2 m obj h"
  shows "\<exists>h'. EventManager_apply Py2 m obj h = (None, h') \<and>
              applied m obj (set (dir_py obj)) h h' \<and> apply_ready Py2 m obj h'"
  unfolding EventManager_apply_def
  by (rule apply_loop_applied [OF assms dir_py_distinct dir_py_members])

lemma public_callable_in_dir: "public_callable obj nm \<Longrightarrow> nm \<in> set (dir_py obj)"
  by (auto simp: public_callable_def dir_py_def split: option.splits
      dest: map_of_SomeD intro: rev_image_eqI)

lemma appliedD_public:
  assumes "applied m obj S h h'" and "public_callable obj nm" and "nm \<in> S"
    and "map_of obj nm = Some v"
  shows "\<exists>a. entry h' m nm = Some (PEvent a) \<and>
             (entry h m nm = None \<or> entry h m nm = Some (PEvent a)) \<and>
             handlers (evs h' a) = handlers_under h m nm @ [v]"
proof -
  have "if public_callable obj nm \<and> nm \<in> S
           then (\<exists>a. entry h' m nm = Some (PEvent a)) \<and>
                (entry h m nm = None \<or> entry h m nm = entry h' m nm) \<and>
                handlers_under h' m nm = handlers_under h m nm @ [the (map_of obj nm)]
           else entry h' m nm = entry h m nm \<and>
                (public_callable obj nm \<longrightarrow> handlers_under h' m nm = handlers_under h m nm)"
    using assms(1) unfolding applied_def by (rule spec)
  then have 1: "\<exists>a. entry h' m nm = Some (PEvent a)"
    and 2: "entry h m nm = None \<or> entry h m nm = entry h' m nm"
    and 3: "handlers_under h' m nm = handlers_under h m nm @ [v]"
    using assms(2,3,4) by simp_all
  from 1 obtain a where a: "entry h' m nm = Some (PEvent a)" by blast
  have "handlers (evs h' a) = handlers_under h m nm @ [v]"
    using 3 a by (simp add: handlers_under_def)
  then show ?thesis using a 2 by auto
qed

lemma appliedD_other:
  assumes "applied m obj S h h'" and "\<not> public_callable obj nm"
  shows "entry h' m nm = entry h m nm"
proof -
  have "if public_callable obj nm \<and> nm \<in> S
           then (\<exists>a. entry h' m nm = Some (PEvent a)) \<and>
                (entry h m nm = None \<or> entry h m nm = entry h' m nm) \<and>
                handlers_under h' m nm = handlers_under h m nm @ [the (map_of obj nm)]
           else entry h' m nm = entry h m nm \<and>
                (public_callable obj nm \<longrightarrow> handlers_under h' m nm = handlers_under h m nm)"
    using assms(1) unfolding applied_def by (rule spec)
  then show ?thesis using assms(2) by simp
qed

text \<open>
  What \<^verbatim>\<open>apply\<close> does where it works: under Python 2, when no public callable member is
  named like an attribute of the manager's classes and the manager holds, under those
  names, nothing or distinct Events. Then \<^verbatim>\<open>apply\<close> returns normally, every public
  callable member is appended to the Event under its name (created if there was none), a
  second \<^verbatim>\<open>apply\<close> appends each member again, and the members that are not callable or
  are private get no entry.
\<close>

lemma apply_registers_and_accumulates:
  assumes "apply_ready Py2 m obj h"
  shows "\<exists>h1 h2.
           EventManager_apply Py2 m obj h = (None, h1) \<and>
           EventManager_apply Py2 m obj h1 = (None, h2) \<and>
           (\<forall>nm v. map_of obj nm = Some v \<and> callable v \<and> \<not> startswith_underscore nm \<longrightarrow>
               (\<exists>a. entry h1 m nm = Some (PEvent a) \<and> entry h2 m nm = Some (PEvent a) \<and>
                    handlers (evs h1 a) = handlers_under h m nm @ [v] \<and>
                    handlers (evs h2 a) = handlers_under h m nm @ [v, v])) \<and>
           (\<forall>nm. \<not> public_callable obj nm \<longrightarrow>
               entry h1 m nm = entry h m nm \<and> entry h2 m nm = entry h m nm)"
proof -
  from apply_applied [OF assms] obtain h1
    where e1: "EventManager_apply Py2 m obj h = (None, h1)"
      and a1: "applied m obj (set (dir_py obj)) h h1" and r1: "apply_ready Py2 m obj h1"
    by blast
  from apply_applied [OF r1] obtain h2
    where e2: "EventManager_apply Py2 m obj h1 = (None, h2)"
      and a2: "applied m obj (set (dir_py obj)) h1 h2"
    by blast
  have pub: "\<exists>a. entry h1 m nm = Some (PEvent a) \<and> entry h2 m nm = Some (PEvent a) \<and>
                handlers (evs h1 a) = handlers_under h m nm @ [v] \<and>
                handlers (evs h2 a) = handlers_under h m nm @ [v, v]"
    if v: "map_of obj nm = Some v" and c: "callable v" and u: "\<not> startswith_underscore nm"
    for nm v
  proof -
    have p: "public_callable obj nm" using v c u by (simp add: public_callable_def)
    note d = public_callable_in_dir [OF p]
    from appliedD_public [OF a1 p d v] obtain a
      where a: "entry h1 m nm = Some (PEvent a)"
        and ha: "handlers (evs h1 a) = handlers_under h m nm @ [v]" by blast
    from appliedD_public [OF a2 p d v] obtain b
      where b: "entry h2 m nm = Some (PEvent b)"
        and ab: "entry h1 m nm = None \<or> entry h1 m nm = Some (PEvent b)"
        and hb: "handlers (evs h2 b) = handlers_under h1 m nm @ [v]" by blast
    have "b = a" using a ab by simp
    moreover have "handlers_under h1 m nm = handlers_under h m nm @ [v]"
      using a ha by (simp add: handlers_under_def)
    ultimately show ?thesis using a b ha hb by simp
  qed
  have other: "entry h1 m nm = entry h m nm \<and> entry h2 m nm = entry h m nm"
    if "\<not> public_callable obj nm" for nm
    using appliedD_other [OF a1 that] appliedD_other [OF a2 that] by simp
  from e1 e2 pub other show ?thesis by blast
qed

lemma new_manager_eq:
  "new_manager =
     \<lparr>evs = (\<lambda>a. \<lparr>handlers = [], eventmanager = None, name = PNone\<rparr>)
        (Suc 0 := \<lparr>handlers = [], eventmanager = None, name = PStr ''GLOBAL''\<rparr>),
      mgrs = (\<lambda>a. [])(0 := [(PStr ''got_event'', PEvent (Suc 0))]),
      fresh = Suc (Suc 0), user = []\<rparr>"
  by (simp add: new_manager_def EventManager_init_eq empty_heap_def)

lemma example_public:
  "public_callable example_object nm \<longleftrightarrow> nm = ''a'' \<or> nm = ''b''"
  by (auto simp: public_callable_def example_object_def)

lemma example_ready: "apply_ready Py2 0 example_object new_manager"
  unfolding apply_ready_def example_public
  by (auto simp: class_attrs_def entry_def new_manager_eq)

lemma apply_registers_and_accumulates_example:
  "\<exists>h1 h2.
     EventManager_apply Py2 0 example_object new_manager = (None, h1) \<and>
     EventManager_apply Py2 0 example_object h1 = (None, h2) \<and>
     handlers_under h1 0 ''a'' = [PFunc 1] \<and> handlers_under h1 0 ''b'' = [PFunc 2] \<and>
     handlers_under h2 0 ''a'' = [PFunc 1, PFunc 1] \<and>
     handlers_under h2 0 ''b'' = [PFunc 2, PFunc 2] \<and>
     entry h1 0 ''n'' = None \<and> entry h2 0 ''n'' = None \<and>
     entry h1 0 ''_p'' = None \<and> entry h2 0 ''_p'' = None"
proof -
  from apply_registers_and_accumulates [OF example_ready] obtain h1 h2
    where e1: "EventManager_apply Py2 0 example_object new_manager = (None, h1)"
      and e2: "EventManager_apply Py2 0 example_object h1 = (None, h2)"
      and pub: "\<forall>nm v. map_of example_object nm = Some v \<and> callable v \<and>
                 \<not> startswith_underscore nm \<longrightarrow>
               (\<exists>a. entry h1 0 nm = Some (PEvent a) \<and> entry h2 0 nm = Some (PEvent a) \<and>
                    handlers (evs h1 a) = handlers_under new_manager 0 nm @ [v] \<and>
                    handlers (evs h2 a) = handlers_under new_manager 0 nm @ [v, v])"
      and other: "\<forall>nm. \<not> public_callable example_object nm \<longrightarrow>
               entry h1 0 nm = entry new_manager 0 nm \<and> entry h2 0 nm = entry new_manager 0 nm"
    by blast
  have old: "handlers_under new_manager 0 ''a'' = []" "handlers_under new_manager 0 ''b'' = []"
    "entry new_manager 0 ''n'' = None" "entry new_manager 0 ''_p'' = None"
    by (simp_all add: handlers_under_def entry_def new_manager_eq)
  have "map_of example_object ''a'' = Some (PFunc 1) \<and> callable (PFunc 1) \<and>
        \<not> startswith_underscore ''a''"
    by (simp add: example_object_def)
  with pub have "\<exists>a. entry h1 0 ''a'' = Some (PEvent a) \<and> entry h2 0 ''a'' = Some (PEvent a) \<and>
                    handlers (evs h1 a) = handlers_under new_manager 0 ''a'' @ [PFunc 1] \<and>
                    handlers (evs h2 a) = handlers_under new_manager 0 ''a'' @ [PFunc 1, PFunc 1]"
    by blast
  then have a: "handlers_under h1 0 ''a'' = [PFunc 1]"
    "handlers_under h2 0 ''a'' = [PFunc 1, PFunc 1]"
    using old(1) by (auto simp: handlers_under_def)
  have "map_of example_object ''b'' = Some (PFunc 2) \<and> callable (PFunc 2) \<and>
        \<not> startswith_underscore ''b''"
    by (simp add: example_object_def)
  with pub have "\<exists>a. entry h1 0 ''b'' = Some (PEvent a) \<and> entry h2 0 ''b'' = Some (PEvent a) \<and>
                    handlers (evs h1 a) = handlers_under new_manager 0 ''b'' @ [PFunc 2] \<and>
                    handlers (evs h2 a) = handlers_under new_manager 0 ''b'' @ [PFunc 2, PFunc 2]"
    by blast
  then have b: "handlers_under h1 0 ''b'' = [PFunc 2]"
    "handlers_under h2 0 ''b'' = [PFunc 2, PFunc 2]"
    using old(2) by (auto simp: handlers_under_def)
  have "\<not> public_callable example_object ''n''" "\<not> public_callable example_object ''_p''"
    by (simp_all add: example_public)
  with other old(3,4) have n: "entry h1 0 ''n'' = None" "entry h2 0 ''n'' = None"
    "entry h1 0 ''_p'' = None" "entry h2 0 ''_p'' = None"
    by simp_all
  from e1 e2 a b n show ?thesis by blast
qed

text \<open>
  C9. The claim fails on the code. \<^verbatim>\<open>apply\<close> decides whether the manager already has
  an Event of that name with \<^verbatim>\<open>hasattr(self, method)\<close> (the comment on that line:
  "Didn't have such an event already"), which is no test of the mapping. For a public
  method named like a method of \<^verbatim>\<open>dict\<close>, such as \<^verbatim>\<open>update\<close>, \<^verbatim>\<open>hasattr\<close> is true
  though the manager has no such Event: none is created and \<^verbatim>\<open>self[method]\<close> raises
  \<^verbatim>\<open>KeyError\<close>, on a new manager, under Python 2 and 3 alike. From Python 3.2 on
  \<^verbatim>\<open>hasattr\<close> moreover lets the \<^verbatim>\<open>KeyError\<close> of \<^verbatim>\<open>__getattr__\<close> out, so that
  \<^verbatim>\<open>apply\<close> raises on the first public method of any name that has no entry yet. In
  each case the manager is left as it was.
\<close>

theorem apply_misses_names_of_dict_methods:
  "EventManager_apply Py2 0 [(''update'', PFunc 1)] new_manager = (Some KeyError, new_manager) \<and>
   EventManager_apply Py3 0 [(''update'', PFunc 1)] new_manager = (Some KeyError, new_manager) \<and>
   EventManager_apply Py3 0 example_object new_manager = (Some KeyError, new_manager)"
  by (simp add: EventManager_apply_def dir_py_def example_object_def apply_step_def
      getattr_obj_def hasattr_def getattr_def getitem_def class_attrs_def new_manager_eq)

end
